theory Spec2Isabelle
  imports Complex_Main "HOL-Library.Multiset" "HOL-Library.Monad_Syntax" "HOL-Library.Sublist"
    "HOL-Library.AList"
begin

section \<open>The RSR compliance checker (tools/rsr\_checker.py)\<close>

text \<open>
  The checker audits a repository tree against four fixed check lists (Bronze, Silver,
  Gold, Platinum), scores each list and derives an overall level. Python's classes are
  records here, a raised exception is the value \<open>None\<close> of an option (or the \<open>Inl\<close> of a
  sum where the handler reads the exception's text), and the methods take the object
  they read as an argument.

  Numbers: Python's \<open>int\<close> is \<open>int\<close>. The percentage is a Python \<open>float\<close>; it is
  computed here in exact rational arithmetic, so the rounding of IEEE doubles in
  \<open>passed / total * 100\<close> is not part of the model.
\<close>

subsection \<open>Strings\<close>

text \<open>\<open>str.lower\<close> and \<open>str.capitalize\<close>, on the ASCII letters.\<close>

definition lower_char :: "char \<Rightarrow> char" where
  "lower_char c =
     (case map_of (zip ''ABCDEFGHIJKLMNOPQRSTUVWXYZ'' ''abcdefghijklmnopqrstuvwxyz'') c of
        Some d \<Rightarrow> d
      | None \<Rightarrow> c)"

definition upper_char :: "char \<Rightarrow> char" where
  "upper_char c =
     (case map_of (zip ''abcdefghijklmnopqrstuvwxyz'' ''ABCDEFGHIJKLMNOPQRSTUVWXYZ'') c of
        Some d \<Rightarrow> d
      | None \<Rightarrow> c)"

definition lower :: "string \<Rightarrow> string" where
  "lower s = map lower_char s"

fun capitalize :: "string \<Rightarrow> string" where
  "capitalize [] = []"
| "capitalize (c # cs) = upper_char c # lower cs"

text \<open>
  \<open>sep.join(xs)\<close>, \<open>s.replace(old, new)\<close> for a one-character \<open>old\<close>, \<open>str(n)\<close> for
  a count, and \<open>x in s\<close> on strings, which is \<^const>\<open>sublist\<close>.
\<close>

fun join :: "string \<Rightarrow> string list \<Rightarrow> string" where
  "join sep [] = []"
| "join sep [x] = x"
| "join sep (x # y # ys) = x @ sep @ join sep (y # ys)"

definition replace_char :: "char \<Rightarrow> string \<Rightarrow> string \<Rightarrow> string" where
  "replace_char old new s = concat (map (\<lambda>c. if c = old then new else [c]) s)"




definition quote :: char where
  "quote = CHR 0x27"

subsection \<open>The file system\<close>

text \<open>
  The checker only reads the file system, through \<open>pathlib\<close>. The model is a tree from
  the root directory \<open>/\<close>, without symbolic links and with every directory searchable.
  A regular file is one of three kinds, by what \<open>read_text\<close> does on it:
  \<^item> \<open>Text t\<close>: valid UTF-8, decoding to \<open>t\<close>;
  \<^item> \<open>Undecodable e t\<close>: bytes that are not valid UTF-8; the strict read raises
    UnicodeDecodeError with text \<open>e\<close>, the read with \<open>errors='ignore'\<close> gives \<open>t\<close>;
  \<^item> \<open>Unreadable e\<close>: opening the file raises OSError with text \<open>e\<close>.
  A path is the list of its components below the root.
\<close>

datatype file_data = Text string | Undecodable string string | Unreadable string

datatype node = File file_data | Dir "(string \<times> node) list"

text \<open>
  The components of a path string: \<open>pathlib\<close> drops empty components (doubled and
  trailing slashes) and \<open>.\<close> components when it builds a path.
\<close>

fun split_slash :: "string \<Rightarrow> string \<Rightarrow> string list" where
  "split_slash cur [] = [cur]"
| "split_slash cur (c # cs) =
     (if c = CHR ''/'' then cur # split_slash [] cs else split_slash (cur @ [c]) cs)"

definition path_parts :: "string \<Rightarrow> string list" where
  "path_parts s = filter (\<lambda>c. c \<noteq> [] \<and> c \<noteq> ''.'') (split_slash [] s)"

text \<open>\<open>base / p\<close>: an absolute \<open>p\<close> replaces the base.\<close>

definition joinpath :: "string list \<Rightarrow> string \<Rightarrow> string list" where
  "joinpath base s =
     (case s of
        c # cs \<Rightarrow> if c = CHR ''/'' then path_parts s else base @ path_parts s
      | [] \<Rightarrow> base)"

definition path_str :: "string list \<Rightarrow> string" where
  "path_str p = (if p = [] then ''/'' else concat (map (\<lambda>c. CHR ''/'' # c) p))"

text \<open>
  Path resolution as the operating system does it, component by component: \<open>..\<close>
  moves to the parent (the root is its own parent), and a component below a regular file
  does not resolve. \<open>anc\<close> holds the directories from the current one's parent up to
  the root.
\<close>

fun walk :: "node \<Rightarrow> node list \<Rightarrow> string list \<Rightarrow> node option" where
  "walk cur anc [] = Some cur"
| "walk (File d) anc (c # cs) = None"
| "walk (Dir es) anc (c # cs) =
     (if c = ''..'' then
        (case anc of [] \<Rightarrow> walk (Dir es) [] cs | a # as \<Rightarrow> walk a as cs)
      else
        (case map_of es c of
           None \<Rightarrow> None
         | Some n \<Rightarrow> walk n (Dir es # anc) cs))"

definition stat :: "node \<Rightarrow> string list \<Rightarrow> node option" where
  "stat fs p = walk fs [] p"

definition exists :: "node \<Rightarrow> string list \<Rightarrow> bool" where
  "exists fs p = (stat fs p \<noteq> None)"

fun is_file :: "node \<Rightarrow> bool" where
  "is_file (File d) = True"
| "is_file (Dir es) = False"

text \<open>
  \<open>Path.resolve()\<close> of a path string given the working directory; without symbolic
  links it removes the \<open>..\<close> components lexically.
\<close>

definition resolve :: "string list \<Rightarrow> string \<Rightarrow> string list" where
  "resolve cwd s =
     foldl (\<lambda>acc c. if c = ''..'' then butlast acc else acc @ [c]) [] (joinpath cwd s)"

text \<open>
  \<open>read_text(encoding='utf-8')\<close> and \<open>read_text(encoding='utf-8', errors='ignore')\<close>
  on an entry that exists: the text, or \<open>Inl\<close> of the text of the exception raised.
\<close>

definition is_a_directory_error :: "string list \<Rightarrow> string" where
  "is_a_directory_error p = ''[Errno 21] Is a directory: '' @ quote # path_str p @ [quote]"

fun read_text :: "string list \<Rightarrow> node \<Rightarrow> string + string" where
  "read_text p (File (Text t)) = Inr t"
| "read_text p (File (Undecodable e t)) = Inl e"
| "read_text p (File (Unreadable e)) = Inl e"
| "read_text p (Dir es) = Inl (is_a_directory_error p)"

fun read_text_ignore :: "string list \<Rightarrow> node \<Rightarrow> string + string" where
  "read_text_ignore p (File (Text t)) = Inr t"
| "read_text_ignore p (File (Undecodable e t)) = Inr t"
| "read_text_ignore p (File (Unreadable e)) = Inl e"
| "read_text_ignore p (Dir es) = Inl (is_a_directory_error p)"

text \<open>
  \<open>Path.rglob(pattern)\<close>: the pattern is matched below the base directory and below
  every directory under it. A pattern component matches a name as \<open>fnmatch\<close> does,
  case-sensitively and with no special treatment of hidden names; the source's patterns use
  only the wildcard \<open>*\<close> (\<open>?\<close> is modelled too, character classes are not).
\<close>

fun fnmatch :: "string \<Rightarrow> string \<Rightarrow> bool" where
  "fnmatch [] [] = True"
| "fnmatch [] (c # cs) = False"
| "fnmatch (p # ps) [] = (p = CHR ''*'' \<and> fnmatch ps [])"
| "fnmatch (p # ps) (c # cs) =
     (if p = CHR ''*'' then fnmatch ps (c # cs) \<or> fnmatch (p # ps) cs
      else (p = CHR ''?'' \<or> p = c) \<and> fnmatch ps cs)"

fun walk_dirs :: "string list \<Rightarrow> node \<Rightarrow> (string list \<times> node) list" where
  "walk_dirs p (File d) = []"
| "walk_dirs p (Dir es) = (p, Dir es) # concat (map (\<lambda>(n, c). walk_dirs (p @ [n]) c) es)"

fun select :: "string list \<Rightarrow> string list \<times> node \<Rightarrow> (string list \<times> node) list" where
  "select [] pn = [pn]"
| "select (pat # pats) (p, File d) = []"
| "select (pat # pats) (p, Dir es) =
     concat (map (\<lambda>(n, c). if fnmatch pat n then select pats (p @ [n], c) else []) es)"

definition rglob :: "node \<Rightarrow> string list \<Rightarrow> string \<Rightarrow> (string list \<times> node) list" where
  "rglob fs base pattern =
     (case stat fs base of
        None \<Rightarrow> []
      | Some n \<Rightarrow> concat (map (select (path_parts pattern)) (walk_dirs base n)))"

subsection \<open>ComplianceCheck and ComplianceReport\<close>

record ComplianceCheck =
  name :: string
  description :: string
  level :: string
  category :: string
  required :: bool
  status :: bool
  details :: string
  weight :: rat

text \<open>
  The dataclass defaults \<open>required=True\<close>, \<open>status=False\<close>, \<open>details=""\<close>,
  \<open>weight=1.0\<close>: every check the checker builds passes name, description, level,
  category, status and details by keyword and leaves the other two at their defaults.
\<close>

definition mk_check :: "string \<Rightarrow> string \<Rightarrow> string \<Rightarrow> string \<Rightarrow> bool \<Rightarrow> string \<Rightarrow> ComplianceCheck" where
  "mk_check n d l c s det =
     \<lparr>name = n, description = d, level = l, category = c, required = True,
      status = s, details = det, weight = 1\<rparr>"

record ComplianceReport =
  bronze_checks :: "ComplianceCheck list"
  silver_checks :: "ComplianceCheck list"
  gold_checks :: "ComplianceCheck list"
  platinum_checks :: "ComplianceCheck list"

definition empty_report :: ComplianceReport where
  "empty_report =
     \<lparr>bronze_checks = [], silver_checks = [], gold_checks = [], platinum_checks = []\<rparr>"

text \<open>
  \<open>getattr(self, attr)\<close> for an attribute name ending in \<open>_checks\<close>: the report has
  the four list attributes, and any other such name raises AttributeError (\<open>None\<close>).
\<close>

definition getattr_checks :: "ComplianceReport \<Rightarrow> string \<Rightarrow> ComplianceCheck list option" where
  "getattr_checks r attr =
     (if attr = ''bronze_checks'' then Some (bronze_checks r)
      else if attr = ''silver_checks'' then Some (silver_checks r)
      else if attr = ''gold_checks'' then Some (gold_checks r)
      else if attr = ''platinum_checks'' then Some (platinum_checks r)
      else None)"

text \<open>
  \<open>get_level_score\<close>: \<open>passed = sum(1 for c in checks if c.status)\<close>,
  \<open>total = len(checks)\<close>, \<open>percentage = (passed / total * 100) if total > 0 else 0.0\<close>.
\<close>

definition get_level_score :: "ComplianceReport \<Rightarrow> string \<Rightarrow> (int \<times> int \<times> rat) option" where
  "get_level_score r lv =
     do {
       checks \<leftarrow> getattr_checks r (lower lv @ ''_checks'');
       let passed = (\<Sum>c \<leftarrow> filter status checks. (1::int));
       let total = int (length checks);
       let percentage = (if total > 0 then of_int passed / of_int total * 100 else 0);
       Some (passed, total, percentage)
     }"

text \<open>\<open>get_overall_level\<close>: the four scores, then the gate.\<close>

definition get_overall_level :: "ComplianceReport \<Rightarrow> string option" where
  "get_overall_level r =
     do {
       (_, _, bronze_pct) \<leftarrow> get_level_score r ''Bronze'';
       (_, _, silver_pct) \<leftarrow> get_level_score r ''Silver'';
       (_, _, gold_pct) \<leftarrow> get_level_score r ''Gold'';
       (_, _, platinum_pct) \<leftarrow> get_level_score r ''Platinum'';
       Some (if bronze_pct < 100 then ''Non-compliant''
             else if silver_pct < 100 then ''Bronze''
             else if gold_pct < 66 then ''Silver''
             else if platinum_pct < 66 then ''Gold''
             else ''Platinum'')
     }"

subsection \<open>RSRChecker: the two predicates\<close>

record RSRChecker =
  repo_path :: "string list"
  report :: ComplianceReport

text \<open>\<open>__init__\<close>: the repository path is resolved against the working directory.\<close>

definition RSRChecker_init :: "string list \<Rightarrow> string \<Rightarrow> RSRChecker" where
  "RSRChecker_init cwd p = \<lparr>repo_path = resolve cwd p, report = empty_report\<rparr>"

definition check_file_exists :: "RSRChecker \<Rightarrow> node \<Rightarrow> string \<Rightarrow> bool" where
  "check_file_exists self fs p = exists fs (joinpath (repo_path self) p)"

text \<open>
  \<open>re.search(pattern, content, re.IGNORECASE | re.MULTILINE)\<close> belongs to Python's
  library, so the checker takes it as a parameter: \<open>Inr True\<close> for a match,
  \<open>Inr False\<close> for none, \<open>Inl e\<close> when the pattern does not compile and \<open>re.error\<close>
  is raised with text \<open>e\<close>.
\<close>

type_synonym regex_search = "string \<Rightarrow> string \<Rightarrow> string + bool"

text \<open>
  The loop of \<open>check_file_content\<close> over the patterns, with its list \<open>missing\<close>; an
  exception leaves the loop at once.
\<close>

fun find_missing :: "regex_search \<Rightarrow> string \<Rightarrow> string list \<Rightarrow> string list \<Rightarrow> string + string list" where
  "find_missing re_search content missing [] = Inr missing"
| "find_missing re_search content missing (pattern # patterns) =
     (case re_search pattern content of
        Inl e \<Rightarrow> Inl e
      | Inr found \<Rightarrow>
          find_missing re_search content
            (if \<not> found then missing @ [pattern] else missing) patterns)"

text \<open>
  \<open>check_file_content\<close>: the \<open>try\<close> block is the inner \<open>case\<close>, whose \<open>Inl e\<close> is
  the exception that \<open>except Exception as e\<close> catches.
\<close>

definition check_file_content ::
  "regex_search \<Rightarrow> RSRChecker \<Rightarrow> node \<Rightarrow> string \<Rightarrow> string list \<Rightarrow> bool \<times> string" where
  "check_file_content re_search self fs p patterns =
     (let file_path = joinpath (repo_path self) p in
      case stat fs file_path of
        None \<Rightarrow> (False, ''File '' @ p @ '' not found'')
      | Some n \<Rightarrow>
          (case (case read_text file_path n of
                   Inl e \<Rightarrow> Inl e
                 | Inr content \<Rightarrow> find_missing re_search content [] patterns) of
             Inr missing \<Rightarrow>
               if missing \<noteq> []
               then (False, ''Missing patterns: '' @ join '', '' (take 3 missing))
               else (True, ''All required content present'')
           | Inl e \<Rightarrow> (False, ''Error reading file: '' @ e)))"

subsection \<open>The Bronze checks\<close>



subsection \<open>The Silver checks\<close>


subsection \<open>The Gold checks\<close>

text \<open>
  The scan for property-based testing: the loop over \<open>(repo_path / "tests").rglob("*")\<close>.
  Only regular files are read; a file whose read raises is passed over; the first file
  holding one of the library names ends the loop.
\<close>

fun scan_property_tests :: "(string list \<times> node) list \<Rightarrow> bool" where
  "scan_property_tests [] = False"
| "scan_property_tests ((test_file, n) # rest) =
     (if is_file n then
        (case read_text_ignore test_file n of
           Inr content \<Rightarrow>
             if list_ex (\<lambda>lib. sublist lib content) [''hypothesis'', ''quickcheck'', ''proptest'']
             then True
             else scan_property_tests rest
         | Inl e \<Rightarrow> scan_property_tests rest)
      else scan_property_tests rest)"

text \<open>
  The table of language indicators, in the dictionary's insertion order.
\<close>

definition lang_indicators :: "(string \<times> string list) list" where
  "lang_indicators =
     [(''Python'', [''*.py'', ''setup.py'', ''pyproject.toml'']),
      (''Rust'', [''Cargo.toml'', ''src/*.rs'']),
      (''JavaScript'', [''package.json'', ''*.js'']),
      (''TypeScript'', [''tsconfig.json'', ''*.ts'']),
      (''Go'', [''go.mod'', ''*.go'']),
      (''Ada'', [''*.adb'', ''*.ads'']),
      (''Elixir'', [''mix.exs'', ''*.ex'']),
      (''Haskell'', [''*.hs'', ''stack.yaml''])]"

text \<open>
  The workflow files of a CI directory are read one after another into \<open>content\<close>; the
  first read that raises ends the \<open>try\<close> block.
\<close>

fun read_workflows :: "string \<Rightarrow> (string list \<times> node) list \<Rightarrow> string + string" where
  "read_workflows content [] = Inr content"
| "read_workflows content ((w, n) # rest) =
     (case read_text w n of
        Inl e \<Rightarrow> Inl e
      | Inr t \<Rightarrow> read_workflows (content @ t) rest)"

text \<open>
  The loop over the two CI locations, with the list \<open>security_features\<close>: it ends at the
  first location whose text names a scanner, and passes over a location whose read raises.
\<close>

fun scan_ci :: "RSRChecker \<Rightarrow> node \<Rightarrow> string list \<Rightarrow> string list \<Rightarrow> string list" where
  "scan_ci self fs security_features [] = security_features"
| "scan_ci self fs security_features (ci_file # rest) =
     (if check_file_exists self fs ci_file then
        (let p = joinpath (repo_path self) ci_file in
         case (case stat fs p of
                 None \<Rightarrow> Inr []
               | Some n \<Rightarrow>
                   if is_file n then read_text p n
                   else read_workflows [] (rglob fs p ''*.yml'')) of
           Inr content \<Rightarrow>
             if list_ex (\<lambda>tool. sublist tool content) [''bandit'', ''semgrep'', ''snyk'', ''trivy'']
             then security_features @ [''Security scanning'']
             else scan_ci self fs security_features rest
         | Inl e \<Rightarrow> scan_ci self fs security_features rest)
      else scan_ci self fs security_features rest)"

definition check_gold_level :: "RSRChecker \<Rightarrow> node \<Rightarrow> RSRChecker" where
  "check_gold_level self fs =
     (let checks = [];
          formal_files = [''proofs/'', ''formal/'', ''coq/'', ''isabelle/'', ''tla+/''];
          has_formal = list_ex (check_file_exists self fs) formal_files;
          has_property_tests =
            (if check_file_exists self fs ''tests''
             then scan_property_tests (rglob fs (joinpath (repo_path self) ''tests'') ''*'')
             else False);
          status = (has_formal \<or> has_property_tests);
          details = [];
          details = (if has_formal then details @ [''Formal verification''] else details);
          details = (if has_property_tests then details @ [''Property-based testing''] else details);
          checks = checks @ [mk_check ''Formal verification''
            ''Formal proofs or property-based testing''
            ''Gold'' ''Quality'' status
            (if details \<noteq> [] then join '', '' details else ''Not found'')];
          languages_found =
            map fst (filter (\<lambda>(lang, indicators).
                       list_ex (\<lambda>indicator. rglob fs (repo_path self) indicator \<noteq> []) indicators)
                     lang_indicators);
          status = (length languages_found \<ge> 2);
          checks = checks @ [mk_check ''Multi-language support''
            ''Support for 2+ programming languages''
            ''Gold'' ''Architecture'' status
            (if languages_found \<noteq> [] then ''Languages: '' @ join '', '' languages_found
             else ''Single language'')];
          security_features = [];
          security_features = scan_ci self fs security_features [''.gitlab-ci.yml'', ''.github/workflows''];
          security_features =
            (if check_file_exists self fs ''requirements.txt'' \<or> check_file_exists self fs ''Cargo.lock''
             then security_features @ [''Dependency management''] else security_features);
          security_features =
            (if check_file_exists self fs ''sbom.json'' \<or> check_file_exists self fs ''bom.xml''
             then security_features @ [''SBOM''] else security_features);
          status = (length security_features \<ge> 2);
          checks = checks @ [mk_check ''Advanced security''
            ''Security scanning, SBOM, or other advanced features''
            ''Gold'' ''Security'' status
            (if security_features \<noteq> [] then join '', '' security_features else ''Not found'')]
      in self\<lparr>report := (report self)\<lparr>gold_checks := checks\<rparr>\<rparr>)"

subsection \<open>The Platinum checks\<close>




subsection \<open>Running the checks, the JSON export, the badge and the exit code\<close>


text \<open>
  The document that \<open>export_json\<close> hands to \<open>json.dump\<close>. Dictionaries keep their
  insertion order and are association lists.
\<close>

datatype json =
    JInt int
  | JFloat rat
  | JString string
  | JBool bool
  | JList "json list"
  | JDict "(string \<times> json) list"

definition check_json :: "ComplianceCheck \<Rightarrow> json" where
  "check_json c =
     JDict [(''name'', JString (name c)),
            (''description'', JString (description c)),
            (''category'', JString (category c)),
            (''status'', JBool (status c)),
            (''details'', JString (details c))]"

text \<open>The loop of \<open>export_json\<close> over the four level keys, filling \<open>data["levels"]\<close>.\<close>

fun export_levels :: "ComplianceReport \<Rightarrow> (string \<times> json) list \<Rightarrow> string list \<Rightarrow> (string \<times> json) list option" where
  "export_levels r levels [] = Some levels"
| "export_levels r levels (lv # rest) =
     do {
       (passed, total, percentage) \<leftarrow> get_level_score r (capitalize lv);
       checks \<leftarrow> getattr_checks r (lv @ ''_checks'');
       export_levels r
         (AList.update lv
            (JDict [(''score'', JDict [(''passed'', JInt passed),
                                       (''total'', JInt total),
                                       (''percentage'', JFloat percentage)]),
                    (''checks'', JList (map check_json checks))])
            levels)
         rest
     }"

text \<open>
  \<open>export_json\<close>: \<open>now\<close> is the text of \<open>datetime.now().isoformat()\<close>. The result
  is the path of the output file and the document written to it; the write itself and
  the serialisation by \<open>json.dump\<close> are outside the model.
\<close>

definition export_json :: "RSRChecker \<Rightarrow> string \<Rightarrow> string \<Rightarrow> (string list \<times> json) option" where
  "export_json self now output_file =
     do {
       overall_level \<leftarrow> get_overall_level (report self);
       levels \<leftarrow> export_levels (report self) [] [''bronze'', ''silver'', ''gold'', ''platinum''];
       let data = JDict [(''timestamp'', JString now),
                         (''repository'', JString (path_str (repo_path self))),
                         (''overall_level'', JString overall_level),
                         (''levels'', JDict levels)];
       let output_path = joinpath (repo_path self) output_file;
       Some (output_path, data)
     }"

text \<open>
  \<open>generate_badge\<close>: \<open>badge_url\<close> is the part of the method after the overall level
  has been read, for any level string.
\<close>

definition colors :: "(string \<times> string) list" where
  "colors =
     [(''Platinum'', ''purple''),
      (''Gold'', ''yellow''),
      (''Silver'', ''silver''),
      (''Bronze'', ''orange''),
      (''Non-compliant'', ''red'')]"

definition badge_url :: "string \<Rightarrow> string" where
  "badge_url lv =
     (let color = (case map_of colors lv of Some c \<Rightarrow> c | None \<Rightarrow> ''lightgrey'')
      in ''https://img.shields.io/badge/RSR-'' @ replace_char CHR '' '' ''%20'' lv @ ''-'' @ color)"

definition generate_badge :: "RSRChecker \<Rightarrow> string option" where
  "generate_badge self =
     do {
       lv \<leftarrow> get_overall_level (report self);
       Some (badge_url lv)
     }"

text \<open>
  \<open>main\<close>, after \<open>argparse\<close> has parsed the command line into \<open>args\<close>: the result is
  the exit code, with the exported document when \<open>--json\<close> is given; \<open>None\<close> stands
  for an exception that leaves \<open>main\<close>.
\<close>

record args =
  path :: string
  json :: bool
  json_output :: string
  badge :: bool
  quiet :: bool


section \<open>Properties\<close>

subsection \<open>Notions used to state the properties\<close>

text \<open>The percentage of a score triple \<open>(passed, total, percentage)\<close>.\<close>

abbreviation percentage_of :: "int \<times> int \<times> rat \<Rightarrow> rat" where
  "percentage_of t \<equiv> snd (snd t)"

text \<open>
  The order of the levels, lowest first, and the comparison of two level strings in it;
  a string that is not a level compares with nothing.
\<close>

definition level_order :: "string list" where
  "level_order = [''Non-compliant'', ''Bronze'', ''Silver'', ''Gold'', ''Platinum'']"

fun index_of :: "'a \<Rightarrow> 'a list \<Rightarrow> nat option" where
  "index_of x [] = None"
| "index_of x (y # ys) = (if x = y then Some 0 else map_option Suc (index_of x ys))"

definition level_le :: "string \<Rightarrow> string \<Rightarrow> bool" where
  "level_le a b =
     (case (index_of a level_order, index_of b level_order) of
        (Some i, Some j) \<Rightarrow> i \<le> j
      | _ \<Rightarrow> False)"

text \<open>The check at position \<open>i\<close> of a list set to passed; the other fields stay.\<close>

definition pass_at :: "nat \<Rightarrow> ComplianceCheck list \<Rightarrow> ComplianceCheck list" where
  "pass_at i cs = cs[i := (cs ! i)\<lparr>status := True\<rparr>]"

text \<open>
  The score of a check list in closed form, and the gate on four percentages; both serve
  the proofs only.
\<close>

definition list_score :: "ComplianceCheck list \<Rightarrow> int \<times> int \<times> rat" where
  "list_score cs =
     (int (length (filter status cs)), int (length cs),
      if cs = [] then 0
      else of_nat (length (filter status cs)) / of_nat (length cs) * 100)"

definition gate :: "rat \<Rightarrow> rat \<Rightarrow> rat \<Rightarrow> rat \<Rightarrow> string" where
  "gate b s g p =
     (if b < 100 then ''Non-compliant''
      else if s < 100 then ''Bronze''
      else if g < 66 then ''Silver''
      else if p < 66 then ''Gold''
      else ''Platinum'')"

text \<open>
  Reading an exported document: the value under a key of an object, and the value at the
  end of a path of keys.
\<close>

fun json_get :: "json \<Rightarrow> string \<Rightarrow> json option" where
  "json_get (JDict kvs) k = map_of kvs k"
| "json_get j k = None"

fun json_path :: "string list \<Rightarrow> json \<Rightarrow> json option" where
  "json_path [] j = Some j"
| "json_path (k # ks) j = (case json_get j k of None \<Rightarrow> None | Some j' \<Rightarrow> json_path ks j')"

text \<open>The \<open>score\<close> object of a score triple, and the object of a level.\<close>

definition score_object :: "int \<times> int \<times> rat \<Rightarrow> json" where
  "score_object t =
     JDict [(''passed'', JInt (fst t)), (''total'', JInt (fst (snd t))),
            (''percentage'', JFloat (snd (snd t)))]"

definition level_object :: "int \<times> int \<times> rat \<Rightarrow> ComplianceCheck list \<Rightarrow> json" where
  "level_object t checks =
     JDict [(''score'', score_object t), (''checks'', JList (map check_json checks))]"

text \<open>
  The entries reached from a node by descending along a list of names (a list, since a
  directory listing is not assumed free of repeated names).
\<close>

fun below :: "node \<Rightarrow> string list \<Rightarrow> node list" where
  "below n [] = [n]"
| "below (File d) (c # r) = []"
| "below (Dir es) (c # r) = concat (map (\<lambda>(k, m). if k = c then below m r else []) es)"

subsection \<open>Example data\<close>

definition passing :: ComplianceCheck where
  "passing = mk_check ''A'' ''a check that passes'' ''Bronze'' ''Example'' True ''Found''"

definition failing :: ComplianceCheck where
  "failing = mk_check ''B'' ''a check that fails'' ''Bronze'' ''Example'' False ''Missing''"

definition report_a :: ComplianceReport where
  "report_a =
     \<lparr>bronze_checks = [passing, failing, passing], silver_checks = [passing],
      gold_checks = [passing, passing, failing], platinum_checks = []\<rparr>"

definition report_b :: ComplianceReport where
  "report_b =
     \<lparr>bronze_checks = [passing\<lparr>required := False, weight := 5\<rparr>, passing, failing],
      silver_checks = [passing\<lparr>name := ''C''\<rparr>],
      gold_checks = [failing, passing, passing], platinum_checks = []\<rparr>"

text \<open>
  A checker on the directory \<open>/repo\<close>, and a stand-in for \<open>re.search\<close> that agrees
  with it on the patterns of the examples: a pattern of letters matches where it occurs
  in the text, whatever the case, and the pattern \<open>(\<close> does not compile.
\<close>

definition example_checker :: RSRChecker where
  "example_checker = RSRChecker_init [''repo''] ''.''"

definition literal_search :: regex_search where
  "literal_search pattern content =
     (if pattern = ''('' then Inl ''missing ), unterminated subpattern at position 0''
      else Inr (sublist (lower pattern) (lower content)))"


definition readme_repo :: node where
  "readme_repo =
     Dir [(''repo'',
        Dir [(''README.md'', File (Text ''# Demo  ## Usage  ## License'')),
             (''LICENSE'', File (Unreadable ''[Errno 13] Permission denied'')),
             (''docs'', Dir [])])]"

definition coq_file_repo :: node where
  "coq_file_repo = Dir [(''repo'', Dir [(''coq'', File (Text ''notes''))])]"

definition tests_repo :: node where
  "tests_repo =
     Dir [(''repo'',
        Dir [(''tests'',
           Dir [(''unit'', Dir [(''test_props.py'', File (Text ''from hypothesis import given''))])])])]"

subsection \<open>Scoring\<close>

lemma passed_eq: "(\<Sum>c \<leftarrow> filter status cs. (1::int)) = int (length (filter status cs))"
  by (induction cs) auto

lemma count_status: "count_list (map status cs) True = length (filter status cs)"
  by (induction cs) auto

lemma lower_names:
  "lower ''Bronze'' = ''bronze''" "lower ''Silver'' = ''silver''"
  "lower ''Gold'' = ''gold''" "lower ''Platinum'' = ''platinum''"
  by (simp_all add: lower_def lower_char_def)

lemma get_level_score_closed:
  "get_level_score r lv = map_option list_score (getattr_checks r (lower lv @ ''_checks''))"
  by (cases "getattr_checks r (lower lv @ ''_checks'')")
     (simp_all add: get_level_score_def list_score_def passed_eq Let_def)

lemma score_bronze: "get_level_score r ''Bronze'' = Some (list_score (bronze_checks r))"
  by (simp add: get_level_score_closed getattr_checks_def lower_names)

lemma score_silver: "get_level_score r ''Silver'' = Some (list_score (silver_checks r))"
  by (simp add: get_level_score_closed getattr_checks_def lower_names)

lemma score_gold: "get_level_score r ''Gold'' = Some (list_score (gold_checks r))"
  by (simp add: get_level_score_closed getattr_checks_def lower_names)

lemma score_platinum: "get_level_score r ''Platinum'' = Some (list_score (platinum_checks r))"
  by (simp add: get_level_score_closed getattr_checks_def lower_names)

lemma overall_gate:
  "get_overall_level r =
     Some (gate (percentage_of (list_score (bronze_checks r)))
                (percentage_of (list_score (silver_checks r)))
                (percentage_of (list_score (gold_checks r)))
                (percentage_of (list_score (platinum_checks r))))"
  by (simp add: get_overall_level_def score_bronze score_silver score_gold score_platinum
        gate_def case_prod_beta)

lemma percentage_le_100: "percentage_of (list_score cs) \<le> 100"
proof (cases "cs = []")
  case True
  then show ?thesis by (simp add: list_score_def)
next
  case False
  have "length (filter status cs) \<le> length cs" by simp
  then have "(of_nat (length (filter status cs)) :: rat) \<le> of_nat (length cs)"
    using of_nat_le_iff by blast
  moreover have "(0::rat) < of_nat (length cs)" using False by simp
  ultimately show ?thesis using False by (simp add: list_score_def divide_le_eq)
qed

lemma gate_platinum:
  "gate b s g p = ''Platinum'' \<longleftrightarrow> \<not> b < 100 \<and> \<not> s < 100 \<and> \<not> g < 66 \<and> \<not> p < 66"
  by (simp add: gate_def)

lemma gate_non_compliant: "gate b s g p = ''Non-compliant'' \<longleftrightarrow> b < 100"
  by (simp add: gate_def)

text \<open>
  C1. For every report the overall level follows the gate table on the four percentages
  that \<open>get_level_score\<close> returns: Non-compliant when Bronze is below 100, else Bronze
  when Silver is below 100, else Silver when Gold is below 66, else Gold when Platinum is
  below 66, else Platinum. So it is Platinum exactly when Bronze and Silver are 100 and Gold
  and Platinum are at least 66, and Non-compliant exactly when Bronze is below 100.
\<close>

theorem overall_level_gate_table:
  "\<exists>b s g p.
     get_level_score r ''Bronze'' = Some b \<and> get_level_score r ''Silver'' = Some s \<and>
     get_level_score r ''Gold'' = Some g \<and> get_level_score r ''Platinum'' = Some p \<and>
     get_overall_level r =
       Some (if percentage_of b < 100 then ''Non-compliant''
             else if percentage_of s < 100 then ''Bronze''
             else if percentage_of g < 66 then ''Silver''
             else if percentage_of p < 66 then ''Gold''
             else ''Platinum'') \<and>
     (get_overall_level r = Some ''Platinum'' \<longleftrightarrow>
        percentage_of b = 100 \<and> percentage_of s = 100 \<and>
        66 \<le> percentage_of g \<and> 66 \<le> percentage_of p) \<and>
     (get_overall_level r = Some ''Non-compliant'' \<longleftrightarrow> percentage_of b < 100)"
proof -
  let ?b = "list_score (bronze_checks r)" and ?s = "list_score (silver_checks r)"
  let ?g = "list_score (gold_checks r)" and ?p = "list_score (platinum_checks r)"
  have lvl: "get_overall_level r =
      Some (gate (percentage_of ?b) (percentage_of ?s) (percentage_of ?g) (percentage_of ?p))"
    by (rule overall_gate)
  have b100: "\<not> percentage_of ?b < 100 \<longleftrightarrow> percentage_of ?b = 100"
    using percentage_le_100 [of "bronze_checks r"] by linarith
  have s100: "\<not> percentage_of ?s < 100 \<longleftrightarrow> percentage_of ?s = 100"
    using percentage_le_100 [of "silver_checks r"] by linarith
  have table: "get_overall_level r =
       Some (if percentage_of ?b < 100 then ''Non-compliant''
             else if percentage_of ?s < 100 then ''Bronze''
             else if percentage_of ?g < 66 then ''Silver''
             else if percentage_of ?p < 66 then ''Gold''
             else ''Platinum'')"
    unfolding lvl gate_def ..
  have plat: "get_overall_level r = Some ''Platinum'' \<longleftrightarrow>
        percentage_of ?b = 100 \<and> percentage_of ?s = 100 \<and>
        66 \<le> percentage_of ?g \<and> 66 \<le> percentage_of ?p"
    unfolding lvl option.inject gate_platinum b100 s100 by (simp add: not_less)
  have nc: "get_overall_level r = Some ''Non-compliant'' \<longleftrightarrow> percentage_of ?b < 100"
    unfolding lvl option.inject gate_non_compliant ..
  show ?thesis
    using score_bronze [of r] score_silver [of r] score_gold [of r] score_platinum [of r]
      table plat nc by blast
qed

text \<open>
  C2. For each of the four levels, \<open>get_level_score\<close> returns the number of checks of
  the level's list whose status is true, the length of the list, and the percentage
  \<open>passed / total * 100\<close>, which is 0 for an empty list.
\<close>

theorem level_score_counts:
  assumes "(lv, cs) \<in> {(''Bronze'', bronze_checks r), (''Silver'', silver_checks r),
                        (''Gold'', gold_checks r), (''Platinum'', platinum_checks r)}"
  shows "\<exists>passed total percentage.
           get_level_score r lv = Some (passed, total, percentage) \<and>
           passed = int (count_list (map status cs) True) \<and>
           total = int (length cs) \<and>
           percentage = (if total = 0 then 0 else of_int passed / of_int total * 100)"
proof -
  have "get_level_score r lv = Some (list_score cs)"
    using assms score_bronze score_silver score_gold score_platinum by auto
  then show ?thesis
    by (simp add: list_score_def count_status)
qed

theorem level_score_counts_witness:
  "(''Bronze'', bronze_checks report_a) \<in>
      {(''Bronze'', bronze_checks report_a), (''Silver'', silver_checks report_a),
       (''Gold'', gold_checks report_a), (''Platinum'', platinum_checks report_a)} \<and>
   get_level_score report_a ''Bronze'' = Some (2, 3, 200 / 3) \<and>
   get_level_score report_a ''Platinum'' = Some (0, 0, 0)"
  using level_score_counts [of "''Bronze''" "bronze_checks report_a" report_a]
    level_score_counts [of "''Platinum''" "platinum_checks report_a" report_a]
  by (simp add: report_a_def passing_def failing_def mk_check_def)

lemma list_score_mset:
  assumes "mset (map status xs) = mset (map status ys)"
  shows "list_score xs = list_score ys"
proof -
  have len: "length xs = length ys"
    using assms by (metis length_map size_mset)
  have "count (mset (map status xs)) True = count (mset (map status ys)) True"
    using assms by simp
  then have "count_list (map status xs) True = count_list (map status ys) True"
    by (simp only: count_mset)
  then have cnt: "length (filter status xs) = length (filter status ys)"
    by (simp add: count_status)
  have "xs = [] \<longleftrightarrow> ys = []" using len by auto
  then show ?thesis using len cnt by (simp add: list_score_def)
qed

text \<open>
  C9. Two reports whose check lists have, level by level, the same multiset of status
  values get the same score for every level name and the same overall level: the fields
  \<open>required\<close> and \<open>weight\<close> and the order of the checks are not read.
\<close>

theorem score_reads_status_only:
  assumes "mset (map status (bronze_checks r1)) = mset (map status (bronze_checks r2))"
    and "mset (map status (silver_checks r1)) = mset (map status (silver_checks r2))"
    and "mset (map status (gold_checks r1)) = mset (map status (gold_checks r2))"
    and "mset (map status (platinum_checks r1)) = mset (map status (platinum_checks r2))"
  shows "get_level_score r1 lv = get_level_score r2 lv \<and>
         get_overall_level r1 = get_overall_level r2"
proof -
  have b: "list_score (bronze_checks r1) = list_score (bronze_checks r2)"
    using assms(1) by (rule list_score_mset)
  have s: "list_score (silver_checks r1) = list_score (silver_checks r2)"
    using assms(2) by (rule list_score_mset)
  have g: "list_score (gold_checks r1) = list_score (gold_checks r2)"
    using assms(3) by (rule list_score_mset)
  have p: "list_score (platinum_checks r1) = list_score (platinum_checks r2)"
    using assms(4) by (rule list_score_mset)
  have "map_option list_score (getattr_checks r1 a) = map_option list_score (getattr_checks r2 a)"
    for a
    by (simp add: getattr_checks_def b s g p)
  then have "get_level_score r1 lv = get_level_score r2 lv"
    by (simp add: get_level_score_closed)
  moreover have "get_overall_level r1 = get_overall_level r2"
    by (simp add: overall_gate b s g p)
  ultimately show ?thesis ..
qed

theorem score_reads_status_only_witness:
  "mset (map status (bronze_checks report_a)) = mset (map status (bronze_checks report_b)) \<and>
   mset (map status (silver_checks report_a)) = mset (map status (silver_checks report_b)) \<and>
   mset (map status (gold_checks report_a)) = mset (map status (gold_checks report_b)) \<and>
   mset (map status (platinum_checks report_a)) = mset (map status (platinum_checks report_b)) \<and>
   report_a \<noteq> report_b \<and>
   get_level_score report_a ''Gold'' = get_level_score report_b ''Gold'' \<and>
   get_overall_level report_a = get_overall_level report_b"
proof -
  have h: "mset (map status (bronze_checks report_a)) = mset (map status (bronze_checks report_b))"
    "mset (map status (silver_checks report_a)) = mset (map status (silver_checks report_b))"
    "mset (map status (gold_checks report_a)) = mset (map status (gold_checks report_b))"
    "mset (map status (platinum_checks report_a)) = mset (map status (platinum_checks report_b))"
    by (simp_all add: report_a_def report_b_def passing_def failing_def mk_check_def)
  have d: "report_a \<noteq> report_b"
    by (simp add: report_a_def report_b_def passing_def failing_def mk_check_def)
  show ?thesis
    using h d score_reads_status_only [OF h, of "''Gold''"] by simp
qed

lemma filter_status_mono:
  "list_all2 (\<lambda>a b. status a \<longrightarrow> status b) xs ys \<Longrightarrow>
     length (filter status xs) \<le> length (filter status ys)"
  by (induction rule: list_all2_induct) auto

lemma pass_at_all2: "list_all2 (\<lambda>a b. status a \<longrightarrow> status b) cs (pass_at i cs)"
  unfolding pass_at_def
  by (cases "i < length cs") (auto simp: list_all2_conv_all_nth nth_list_update)

lemma percentage_mono:
  assumes "list_all2 (\<lambda>a b. status a \<longrightarrow> status b) xs ys"
  shows "percentage_of (list_score xs) \<le> percentage_of (list_score ys)"
proof -
  have len: "length xs = length ys" using assms by (rule list_all2_lengthD)
  have le: "length (filter status xs) \<le> length (filter status ys)"
    using assms by (rule filter_status_mono)
  show ?thesis
  proof (cases "xs = []")
    case True
    then show ?thesis using len by (simp add: list_score_def)
  next
    case False
    then have ys: "ys \<noteq> []" using len by auto
    have "(of_nat (length (filter status xs)) :: rat) * 100
            \<le> of_nat (length (filter status ys)) * 100"
      using le by simp
    then have "(of_nat (length (filter status xs)) :: rat) * 100 / of_nat (length ys)
                 \<le> of_nat (length (filter status ys)) * 100 / of_nat (length ys)"
      by (rule divide_right_mono) simp
    then show ?thesis using False ys len by (simp add: list_score_def)
  qed
qed

lemma percentage_pass_at:
  "percentage_of (list_score cs) \<le> percentage_of (list_score (pass_at i cs))"
  by (rule percentage_mono) (rule pass_at_all2)

lemma level_index:
  "index_of ''Non-compliant'' level_order = Some 0"
  "index_of ''Bronze'' level_order = Some 1"
  "index_of ''Silver'' level_order = Some 2"
  "index_of ''Gold'' level_order = Some 3"
  "index_of ''Platinum'' level_order = Some 4"
  by (simp_all add: level_order_def)

lemma gate_mono:
  assumes "b \<le> b'" "s \<le> s'" "g \<le> g'" "p \<le> p'"
  shows "level_le (gate b s g p) (gate b' s' g' p')"
  using assms by (simp add: gate_def level_le_def level_index)

text \<open>
  C10. Setting the status of one check of a report to true, in any of the four lists and
  at any position, never lowers the overall level in the order Non-compliant, Bronze,
  Silver, Gold, Platinum.
\<close>

theorem overall_level_monotone:
  assumes "r' \<in> {r\<lparr>bronze_checks := pass_at i (bronze_checks r)\<rparr>,
                  r\<lparr>silver_checks := pass_at i (silver_checks r)\<rparr>,
                  r\<lparr>gold_checks := pass_at i (gold_checks r)\<rparr>,
                  r\<lparr>platinum_checks := pass_at i (platinum_checks r)\<rparr>}"
  shows "\<exists>l l'. get_overall_level r = Some l \<and> get_overall_level r' = Some l' \<and> level_le l l'"
proof -
  have "level_le
          (gate (percentage_of (list_score (bronze_checks r)))
                (percentage_of (list_score (silver_checks r)))
                (percentage_of (list_score (gold_checks r)))
                (percentage_of (list_score (platinum_checks r))))
          (gate (percentage_of (list_score (bronze_checks r')))
                (percentage_of (list_score (silver_checks r')))
                (percentage_of (list_score (gold_checks r')))
                (percentage_of (list_score (platinum_checks r'))))"
  proof (rule gate_mono)
    show "percentage_of (list_score (bronze_checks r)) \<le> percentage_of (list_score (bronze_checks r'))"
      using assms percentage_pass_at [of "bronze_checks r" i] by auto
    show "percentage_of (list_score (silver_checks r)) \<le> percentage_of (list_score (silver_checks r'))"
      using assms percentage_pass_at [of "silver_checks r" i] by auto
    show "percentage_of (list_score (gold_checks r)) \<le> percentage_of (list_score (gold_checks r'))"
      using assms percentage_pass_at [of "gold_checks r" i] by auto
    show "percentage_of (list_score (platinum_checks r)) \<le> percentage_of (list_score (platinum_checks r'))"
      using assms percentage_pass_at [of "platinum_checks r" i] by auto
  qed
  then show ?thesis by (simp add: overall_gate)
qed

theorem overall_level_monotone_witness:
  "report_a\<lparr>bronze_checks := pass_at 1 (bronze_checks report_a)\<rparr> \<in>
      {report_a\<lparr>bronze_checks := pass_at 1 (bronze_checks report_a)\<rparr>,
       report_a\<lparr>silver_checks := pass_at 1 (silver_checks report_a)\<rparr>,
       report_a\<lparr>gold_checks := pass_at 1 (gold_checks report_a)\<rparr>,
       report_a\<lparr>platinum_checks := pass_at 1 (platinum_checks report_a)\<rparr>} \<and>
   get_overall_level report_a = Some ''Non-compliant'' \<and>
   get_overall_level (report_a\<lparr>bronze_checks := pass_at 1 (bronze_checks report_a)\<rparr>) = Some ''Gold'' \<and>
   level_le ''Non-compliant'' ''Gold''"
proof -
  have a: "get_overall_level report_a = Some ''Non-compliant''"
    by (simp add: overall_gate gate_def list_score_def report_a_def passing_def failing_def
          mk_check_def)
  have b: "get_overall_level (report_a\<lparr>bronze_checks := pass_at 1 (bronze_checks report_a)\<rparr>)
             = Some ''Gold''"
    by (simp add: overall_gate gate_def list_score_def report_a_def passing_def failing_def
          mk_check_def pass_at_def)
  show ?thesis
    using a b overall_level_monotone [where r = report_a and i = 1
        and r' = "report_a\<lparr>bronze_checks := pass_at 1 (bronze_checks report_a)\<rparr>"]
    by simp
qed

subsection \<open>The JSON export\<close>

lemma capitalize_keys:
  "capitalize ''bronze'' = ''Bronze''" "capitalize ''silver'' = ''Silver''"
  "capitalize ''gold'' = ''Gold''" "capitalize ''platinum'' = ''Platinum''"
  by (simp_all add: lower_def lower_char_def upper_char_def)

lemma getattr_keys:
  "getattr_checks r (''bronze'' @ ''_checks'') = Some (bronze_checks r)"
  "getattr_checks r (''silver'' @ ''_checks'') = Some (silver_checks r)"
  "getattr_checks r (''gold'' @ ''_checks'') = Some (gold_checks r)"
  "getattr_checks r (''platinum'' @ ''_checks'') = Some (platinum_checks r)"
  by (simp_all add: getattr_checks_def)

lemma export_levels_step:
  assumes "get_level_score r (capitalize k) = Some t" and "getattr_checks r (k @ ''_checks'') = Some cs"
  shows "export_levels r levels (k # rest) =
           export_levels r (AList.update k (level_object t cs) levels) rest"
  using assms by (cases t) (simp add: level_object_def score_object_def)

lemma export_levels_all:
  "export_levels r [] [''bronze'', ''silver'', ''gold'', ''platinum''] =
     Some [(''bronze'', level_object (list_score (bronze_checks r)) (bronze_checks r)),
           (''silver'', level_object (list_score (silver_checks r)) (silver_checks r)),
           (''gold'', level_object (list_score (gold_checks r)) (gold_checks r)),
           (''platinum'', level_object (list_score (platinum_checks r)) (platinum_checks r))]"
proof -
  have b: "get_level_score r (capitalize ''bronze'') = Some (list_score (bronze_checks r))"
    by (simp only: capitalize_keys score_bronze)
  have s: "get_level_score r (capitalize ''silver'') = Some (list_score (silver_checks r))"
    by (simp only: capitalize_keys score_silver)
  have g: "get_level_score r (capitalize ''gold'') = Some (list_score (gold_checks r))"
    by (simp only: capitalize_keys score_gold)
  have p: "get_level_score r (capitalize ''platinum'') = Some (list_score (platinum_checks r))"
    by (simp only: capitalize_keys score_platinum)
  show ?thesis
    unfolding export_levels_step [OF b getattr_keys(1)] export_levels_step [OF s getattr_keys(2)]
      export_levels_step [OF g getattr_keys(3)] export_levels_step [OF p getattr_keys(4)]
    by simp
qed

lemma export_json_closed:
  "export_json self now output_file =
     Some (joinpath (repo_path self) output_file,
           JDict [(''timestamp'', JString now),
                  (''repository'', JString (path_str (repo_path self))),
                  (''overall_level'',
                     JString (gate (percentage_of (list_score (bronze_checks (report self))))
                                   (percentage_of (list_score (silver_checks (report self))))
                                   (percentage_of (list_score (gold_checks (report self))))
                                   (percentage_of (list_score (platinum_checks (report self)))))),
                  (''levels'', JDict
                     [(''bronze'', level_object (list_score (bronze_checks (report self))) (bronze_checks (report self))),
                      (''silver'', level_object (list_score (silver_checks (report self))) (silver_checks (report self))),
                      (''gold'', level_object (list_score (gold_checks (report self))) (gold_checks (report self))),
                      (''platinum'', level_object (list_score (platinum_checks (report self))) (platinum_checks (report self)))])])"
  unfolding export_json_def overall_gate export_levels_all by simp

text \<open>
  C5. In the document that \<open>export_json\<close> writes, \<open>levels.bronze.score.passed\<close> is the
  number of Bronze checks of the report whose status is true, and the \<open>score\<close> object
  of each of the four levels holds the triple that \<open>get_level_score\<close> returns for the
  level.
\<close>

theorem export_json_scores:
  "\<exists>b s g p out data.
     get_level_score (report self) ''Bronze'' = Some b \<and>
     get_level_score (report self) ''Silver'' = Some s \<and>
     get_level_score (report self) ''Gold'' = Some g \<and>
     get_level_score (report self) ''Platinum'' = Some p \<and>
     export_json self now output_file = Some (out, data) \<and>
     json_path [''levels'', ''bronze'', ''score'', ''passed''] data =
       Some (JInt (int (count_list (map status (bronze_checks (report self))) True))) \<and>
     json_path [''levels'', ''bronze'', ''score''] data = Some (score_object b) \<and>
     json_path [''levels'', ''silver'', ''score''] data = Some (score_object s) \<and>
     json_path [''levels'', ''gold'', ''score''] data = Some (score_object g) \<and>
     json_path [''levels'', ''platinum'', ''score''] data = Some (score_object p)"
proof -
  let ?r = "report self"
  obtain out data where e: "export_json self now output_file = Some (out, data)"
    and d: "data = JDict [(''timestamp'', JString now),
                  (''repository'', JString (path_str (repo_path self))),
                  (''overall_level'',
                     JString (gate (percentage_of (list_score (bronze_checks ?r)))
                                   (percentage_of (list_score (silver_checks ?r)))
                                   (percentage_of (list_score (gold_checks ?r)))
                                   (percentage_of (list_score (platinum_checks ?r))))),
                  (''levels'', JDict
                     [(''bronze'', level_object (list_score (bronze_checks ?r)) (bronze_checks ?r)),
                      (''silver'', level_object (list_score (silver_checks ?r)) (silver_checks ?r)),
                      (''gold'', level_object (list_score (gold_checks ?r)) (gold_checks ?r)),
                      (''platinum'', level_object (list_score (platinum_checks ?r)) (platinum_checks ?r))])]"
    using export_json_closed by blast
  have passed: "json_path [''levels'', ''bronze'', ''score'', ''passed''] data =
       Some (JInt (int (count_list (map status (bronze_checks ?r)) True)))"
    by (simp add: d level_object_def score_object_def list_score_def count_status)
  have b: "json_path [''levels'', ''bronze'', ''score''] data = Some (score_object (list_score (bronze_checks ?r)))"
    by (simp add: d level_object_def)
  have s: "json_path [''levels'', ''silver'', ''score''] data = Some (score_object (list_score (silver_checks ?r)))"
    by (simp add: d level_object_def)
  have g: "json_path [''levels'', ''gold'', ''score''] data = Some (score_object (list_score (gold_checks ?r)))"
    by (simp add: d level_object_def)
  have p: "json_path [''levels'', ''platinum'', ''score''] data = Some (score_object (list_score (platinum_checks ?r)))"
    by (simp add: d level_object_def)
  show ?thesis
    using score_bronze [of ?r] score_silver [of ?r] score_gold [of ?r] score_platinum [of ?r]
      e passed b s g p by blast
qed

subsection \<open>The badge\<close>

lemma no_space_replace: "CHR '' '' \<notin> set (replace_char CHR '' '' ''%20'' lv)"
  by (induction lv) (auto simp: replace_char_def)

text \<open>
  C8. The badge URL is \<open>https://img.shields.io/badge/RSR-\<close>, the level with every space
  written \<open>%20\<close>, a hyphen and the colour; the colour is purple, yellow, silver, orange or
  red for the five levels and \<open>lightgrey\<close> for any other string. \<open>generate_badge\<close>
  returns this URL for the overall level of the report, so for Gold the colour is yellow.
\<close>

theorem badge_url_form:
  "badge_url lv =
     ''https://img.shields.io/badge/RSR-'' @
     concat (map (\<lambda>c. if c = CHR '' '' then ''%20'' else [c]) lv) @ ''-'' @
     (if lv = ''Platinum'' then ''purple''
      else if lv = ''Gold'' then ''yellow''
      else if lv = ''Silver'' then ''silver''
      else if lv = ''Bronze'' then ''orange''
      else if lv = ''Non-compliant'' then ''red''
      else ''lightgrey'') \<and>
   CHR '' '' \<notin> set (badge_url lv) \<and>
   badge_url ''Gold'' = ''https://img.shields.io/badge/RSR-Gold-yellow'' \<and>
   badge_url ''Tin plate'' = ''https://img.shields.io/badge/RSR-Tin%20plate-lightgrey'' \<and>
   (\<exists>l. get_overall_level (report self) = Some l \<and> generate_badge self = Some (badge_url l)) \<and>
   (get_overall_level (report self) = Some ''Gold'' \<longleftrightarrow>
      generate_badge self = Some ''https://img.shields.io/badge/RSR-Gold-yellow'')"
proof -
  have form: "badge_url lv =
     ''https://img.shields.io/badge/RSR-'' @
     concat (map (\<lambda>c. if c = CHR '' '' then ''%20'' else [c]) lv) @ ''-'' @
     (if lv = ''Platinum'' then ''purple''
      else if lv = ''Gold'' then ''yellow''
      else if lv = ''Silver'' then ''silver''
      else if lv = ''Bronze'' then ''orange''
      else if lv = ''Non-compliant'' then ''red''
      else ''lightgrey'')"
    by (simp add: badge_url_def colors_def replace_char_def)
  have nospace: "CHR '' '' \<notin> set (badge_url lv)"
    using no_space_replace [of lv] by (simp add: badge_url_def colors_def)
  have gold: "badge_url ''Gold'' = ''https://img.shields.io/badge/RSR-Gold-yellow''"
    by (simp add: badge_url_def colors_def replace_char_def)
  have tin: "badge_url ''Tin plate'' = ''https://img.shields.io/badge/RSR-Tin%20plate-lightgrey''"
    by (simp add: badge_url_def colors_def replace_char_def)
  obtain l where l: "get_overall_level (report self) = Some l"
    and five: "l \<in> {''Non-compliant'', ''Bronze'', ''Silver'', ''Gold'', ''Platinum''}"
    by (simp add: overall_gate gate_def)
  have gen: "generate_badge self = Some (badge_url l)"
    by (simp add: generate_badge_def l)
  have "l = ''Gold'' \<longleftrightarrow> badge_url l = ''https://img.shields.io/badge/RSR-Gold-yellow''"
    using five by (auto simp: badge_url_def colors_def replace_char_def)
  then have iff: "get_overall_level (report self) = Some ''Gold'' \<longleftrightarrow>
      generate_badge self = Some ''https://img.shields.io/badge/RSR-Gold-yellow''"
    by (simp add: l gen)
  show ?thesis
    using form nospace gold tin l gen iff by blast
qed

subsection \<open>The exit code\<close>




subsection \<open>The content predicate\<close>

lemma find_missing_compiled:
  "\<forall>pat\<in>set ps. \<exists>b. rs pat content = Inr b \<Longrightarrow>
     find_missing rs content acc ps = Inr (acc @ filter (\<lambda>pat. rs pat content \<noteq> Inr True) ps)"
proof (induction ps arbitrary: acc)
  case Nil
  then show ?case by simp
next
  case (Cons pat ps)
  then obtain b where b: "rs pat content = Inr b" by auto
  have "find_missing rs content (if \<not> b then acc @ [pat] else acc) ps =
          Inr ((if \<not> b then acc @ [pat] else acc) @ filter (\<lambda>pat. rs pat content \<noteq> Inr True) ps)"
    using Cons by simp
  then show ?case using b by (cases b) simp_all
qed

lemma find_missing_Inr:
  "find_missing rs content acc ps = Inr m \<Longrightarrow> \<forall>pat\<in>set ps. \<exists>b. rs pat content = Inr b"
proof (induction ps arbitrary: acc)
  case Nil
  then show ?case by simp
next
  case (Cons pat ps)
  then show ?case by (cases "rs pat content") auto
qed

lemma find_missing_none:
  "find_missing rs content [] ps = Inr [] \<longleftrightarrow> (\<forall>pat\<in>set ps. rs pat content = Inr True)"
proof
  assume a: "find_missing rs content [] ps = Inr []"
  then have c: "\<forall>pat\<in>set ps. \<exists>b. rs pat content = Inr b" by (rule find_missing_Inr)
  then have "filter (\<lambda>pat. rs pat content \<noteq> Inr True) ps = []"
    using a find_missing_compiled [of ps rs content "[]"] by simp
  then show "\<forall>pat\<in>set ps. rs pat content = Inr True"
    by (simp add: filter_empty_conv)
next
  assume a: "\<forall>pat\<in>set ps. rs pat content = Inr True"
  then have "\<forall>pat\<in>set ps. \<exists>b. rs pat content = Inr b" by auto
  then have "find_missing rs content [] ps = Inr ([] @ filter (\<lambda>pat. rs pat content \<noteq> Inr True) ps)"
    by (rule find_missing_compiled)
  moreover have "filter (\<lambda>pat. rs pat content \<noteq> Inr True) ps = []"
    using a by (simp add: filter_empty_conv)
  ultimately show "find_missing rs content [] ps = Inr []" by simp
qed

lemma check_file_content_read:
  assumes "stat fs (joinpath (repo_path self) p) = Some n"
    and "read_text (joinpath (repo_path self) p) n = Inr content"
  shows "check_file_content re_search self fs p patterns =
           (case find_missing re_search content [] patterns of
              Inr missing \<Rightarrow>
                if missing \<noteq> []
                then (False, ''Missing patterns: '' @ join '', '' (take 3 missing))
                else (True, ''All required content present'')
            | Inl e \<Rightarrow> (False, ''Error reading file: '' @ e))"
  using assms by (simp add: check_file_content_def)

text \<open>
  C3. On a file that can be read, \<open>check_file_content\<close> returns true exactly when every
  pattern matches the text. When the patterns compile and some do not match, it returns
  false with the detail \<open>Missing patterns:\<close> followed by the first three of the missing
  patterns, in their order, joined by a comma and a space.
\<close>

theorem check_file_content_patterns:
  assumes "stat fs (joinpath (repo_path self) p) = Some n"
    and "read_text (joinpath (repo_path self) p) n = Inr content"
  shows "(fst (check_file_content re_search self fs p patterns) \<longleftrightarrow>
            (\<forall>pat\<in>set patterns. re_search pat content = Inr True)) \<and>
         ((\<forall>pat\<in>set patterns. \<exists>b. re_search pat content = Inr b) \<longrightarrow>
            check_file_content re_search self fs p patterns =
              (let missing = filter (\<lambda>pat. re_search pat content \<noteq> Inr True) patterns in
               if missing = [] then (True, ''All required content present'')
               else (False, ''Missing patterns: '' @ join '', '' (take 3 missing))))"
proof
  note c = check_file_content_read [OF assms, of re_search patterns]
  have "fst (check_file_content re_search self fs p patterns) \<longleftrightarrow>
          find_missing re_search content [] patterns = Inr []"
    unfolding c by (auto split: sum.splits)
  then show "fst (check_file_content re_search self fs p patterns) \<longleftrightarrow>
            (\<forall>pat\<in>set patterns. re_search pat content = Inr True)"
    by (simp only: find_missing_none)
next
  note c = check_file_content_read [OF assms, of re_search patterns]
  show "(\<forall>pat\<in>set patterns. \<exists>b. re_search pat content = Inr b) \<longrightarrow>
            check_file_content re_search self fs p patterns =
              (let missing = filter (\<lambda>pat. re_search pat content \<noteq> Inr True) patterns in
               if missing = [] then (True, ''All required content present'')
               else (False, ''Missing patterns: '' @ join '', '' (take 3 missing)))"
  proof
    assume "\<forall>pat\<in>set patterns. \<exists>b. re_search pat content = Inr b"
    then have "find_missing re_search content [] patterns =
                 Inr ([] @ filter (\<lambda>pat. re_search pat content \<noteq> Inr True) patterns)"
      by (rule find_missing_compiled)
    then show "check_file_content re_search self fs p patterns =
              (let missing = filter (\<lambda>pat. re_search pat content \<noteq> Inr True) patterns in
               if missing = [] then (True, ''All required content present'')
               else (False, ''Missing patterns: '' @ join '', '' (take 3 missing)))"
      unfolding c by (simp add: Let_def)
  qed
qed

lemma example_paths:
  "repo_path example_checker = [''repo'']"
  "joinpath [''repo''] ''README.md'' = [''repo'', ''README.md'']"
  "joinpath [''repo''] ''LICENSE'' = [''repo'', ''LICENSE'']"
  "joinpath [''repo''] ''docs'' = [''repo'', ''docs'']"
  by (simp_all add: example_checker_def RSRChecker_init_def resolve_def joinpath_def path_parts_def)

lemma literal_search_readme:
  "literal_search ''Installation'' ''# Demo  ## Usage  ## License'' = Inr False"
  "literal_search ''usage'' ''# Demo  ## Usage  ## License'' = Inr True"
  "literal_search ''Features'' ''# Demo  ## Usage  ## License'' = Inr False"
  "literal_search ''LICENSE'' ''# Demo  ## Usage  ## License'' = Inr True"
  by (simp_all add: literal_search_def lower_def lower_char_def sublist_Cons_right)

theorem check_file_content_patterns_witness:
  "stat readme_repo (joinpath (repo_path example_checker) ''README.md'') =
     Some (File (Text ''# Demo  ## Usage  ## License'')) \<and>
   read_text (joinpath (repo_path example_checker) ''README.md'')
     (File (Text ''# Demo  ## Usage  ## License'')) = Inr ''# Demo  ## Usage  ## License'' \<and>
   check_file_content literal_search example_checker readme_repo ''README.md''
     [''Installation'', ''usage'', ''Features'', ''LICENSE''] =
     (False, ''Missing patterns: Installation, Features'')"
proof -
  have s: "stat readme_repo (joinpath (repo_path example_checker) ''README.md'') =
     Some (File (Text ''# Demo  ## Usage  ## License''))"
    by (simp add: example_paths readme_repo_def stat_def)
  have r: "read_text (joinpath (repo_path example_checker) ''README.md'')
     (File (Text ''# Demo  ## Usage  ## License'')) = Inr ''# Demo  ## Usage  ## License''"
    by simp
  have c: "\<forall>pat\<in>set [''Installation'', ''usage'', ''Features'', ''LICENSE''].
             \<exists>b. literal_search pat ''# Demo  ## Usage  ## License'' = Inr b"
    by (auto simp: literal_search_readme)
  have "check_file_content literal_search example_checker readme_repo ''README.md''
          [''Installation'', ''usage'', ''Features'', ''LICENSE''] =
        (let missing = filter (\<lambda>pat. literal_search pat ''# Demo  ## Usage  ## License'' \<noteq> Inr True)
                         [''Installation'', ''usage'', ''Features'', ''LICENSE''] in
         if missing = [] then (True, ''All required content present'')
         else (False, ''Missing patterns: '' @ join '', '' (take 3 missing)))"
    using check_file_content_patterns [OF s r, of literal_search
        "[''Installation'', ''usage'', ''Features'', ''LICENSE'']"] c
    by blast
  then have "check_file_content literal_search example_checker readme_repo ''README.md''
          [''Installation'', ''usage'', ''Features'', ''LICENSE''] =
        (False, ''Missing patterns: Installation, Features'')"
    by (simp add: literal_search_readme)
  then show ?thesis using s r by simp
qed




subsection \<open>The Gold check for formal verification\<close>

lemma scan_property_tests_iff:
  "scan_property_tests xs \<longleftrightarrow>
     (\<exists>(test_file, n)\<in>set xs. is_file n \<and>
        (\<exists>content. read_text_ignore test_file n = Inr content \<and>
           (\<exists>lib\<in>set [''hypothesis'', ''quickcheck'', ''proptest'']. sublist lib content)))"
proof (induction xs)
  case Nil
  then show ?case by simp
next
  case (Cons x xs)
  obtain test_file n where x: "x = (test_file, n)" by (cases x)
  show ?case
  proof (cases "is_file n")
    case False
    then show ?thesis using Cons x by simp
  next
    case True
    show ?thesis
    proof (cases "read_text_ignore test_file n")
      case (Inl e)
      then show ?thesis using Cons x True by simp
    next
      case (Inr content)
      then show ?thesis using Cons x True by (simp add: list_ex_iff)
    qed
  qed
qed

lemma joinpath_plain:
  "joinpath base ''proofs/'' = base @ [''proofs'']"
  "joinpath base ''formal/'' = base @ [''formal'']"
  "joinpath base ''coq/'' = base @ [''coq'']"
  "joinpath base ''isabelle/'' = base @ [''isabelle'']"
  "joinpath base ''tla+/'' = base @ [''tla+'']"
  "joinpath base ''tests'' = base @ [''tests'']"
  by (simp_all add: joinpath_def path_parts_def)

lemma gold_first_check:
  "\<exists>c rest. gold_checks (report (check_gold_level self fs)) = c # rest \<and>
     name c = ''Formal verification'' \<and>
     (status c \<longleftrightarrow>
        list_ex (check_file_exists self fs) [''proofs/'', ''formal/'', ''coq/'', ''isabelle/'', ''tla+/''] \<or>
        (check_file_exists self fs ''tests'' \<and>
         scan_property_tests (rglob fs (joinpath (repo_path self) ''tests'') ''*'')))"
  by (simp add: check_gold_level_def Let_def mk_check_def)

lemma fnmatch_star: "fnmatch ''*'' s"
  by (induction s) auto

lemma select_star:
  "select [''*''] (p, n) = (case n of File d \<Rightarrow> [] | Dir es \<Rightarrow> map (\<lambda>(k, m). (p @ [k], m)) es)"
proof (cases n)
  case (File d)
  then show ?thesis by simp
next
  case (Dir es)
  have "concat (map (\<lambda>(k, m). if fnmatch ''*'' k then select [] (p @ [k], m) else []) es) =
          map (\<lambda>(k, m). (p @ [k], m)) es"
    by (induction es) (auto simp: fnmatch_star)
  then show ?thesis using Dir by simp
qed

lemma below_snoc:
  "m \<in> set (below n (r @ [k])) \<longleftrightarrow> (\<exists>es. Dir es \<in> set (below n r) \<and> (k, m) \<in> set es)"
proof (induction r arbitrary: n)
  case Nil
  show ?case
  proof (cases n)
    case (File d)
    then show ?thesis by simp
  next
    case (Dir es)
    then show ?thesis by (auto split: if_splits)
  qed
next
  case (Cons c r)
  show ?case
  proof (cases n)
    case (File d)
    then show ?thesis by simp
  next
    case (Dir es)
    then show ?thesis using Cons by (auto split: if_splits)
  qed
qed

lemma walk_dirs_below:
  "(q, d) \<in> set (walk_dirs p n) \<longleftrightarrow> (\<exists>r es. q = p @ r \<and> d = Dir es \<and> Dir es \<in> set (below n r))"
proof (induction p n arbitrary: q d rule: walk_dirs.induct)
  case (1 p f)
  show ?case
  proof
    assume "(q, d) \<in> set (walk_dirs p (File f))"
    then show "\<exists>r es. q = p @ r \<and> d = Dir es \<and> Dir es \<in> set (below (File f) r)" by simp
  next
    assume "\<exists>r es. q = p @ r \<and> d = Dir es \<and> Dir es \<in> set (below (File f) r)"
    then obtain r es where "Dir es \<in> set (below (File f) r)" by blast
    then have False by (cases r) auto
    then show "(q, d) \<in> set (walk_dirs p (File f))" ..
  qed
next
  case (2 p es)
  show ?case
  proof
    assume "(q, d) \<in> set (walk_dirs p (Dir es))"
    then consider "q = p \<and> d = Dir es"
      | k m where "(k, m) \<in> set es" "(q, d) \<in> set (walk_dirs (p @ [k]) m)"
      by auto
    then show "\<exists>r es'. q = p @ r \<and> d = Dir es' \<and> Dir es' \<in> set (below (Dir es) r)"
    proof cases
      case 1
      then have "q = p @ [] \<and> d = Dir es \<and> Dir es \<in> set (below (Dir es) [])" by simp
      then show ?thesis by blast
    next
      case 2
      then obtain r es' where r: "q = (p @ [k]) @ r" "d = Dir es'" "Dir es' \<in> set (below m r)"
        using "2.IH" [of "(k, m)" k m q d] by auto
      have "Dir es' \<in> set (below (Dir es) (k # r))"
        using 2(1) r(3) by auto
      then show ?thesis using r by auto
    qed
  next
    assume "\<exists>r es'. q = p @ r \<and> d = Dir es' \<and> Dir es' \<in> set (below (Dir es) r)"
    then obtain r es' where r: "q = p @ r" "d = Dir es'" "Dir es' \<in> set (below (Dir es) r)"
      by blast
    show "(q, d) \<in> set (walk_dirs p (Dir es))"
    proof (cases r)
      case Nil
      then show ?thesis using r by simp
    next
      case (Cons k r')
      then obtain m where m: "(k, m) \<in> set es" "Dir es' \<in> set (below m r')"
        using r(3) by (auto split: if_splits)
      have "(q, d) \<in> set (walk_dirs (p @ [k]) m)"
        using "2.IH" [of "(k, m)" k m q d] m r Cons by auto
      then show ?thesis using m(1) by auto
    qed
  qed
qed

lemma rglob_star:
  "(q, m) \<in> set (rglob fs base ''*'') \<longleftrightarrow>
     (\<exists>b r. stat fs base = Some b \<and> r \<noteq> [] \<and> q = base @ r \<and> m \<in> set (below b r))"
proof (cases "stat fs base")
  case None
  then show ?thesis by (simp add: rglob_def)
next
  case (Some b)
  have parts: "path_parts ''*'' = [''*'']" by (simp add: path_parts_def)
  have "(q, m) \<in> set (rglob fs base ''*'') \<longleftrightarrow>
          (\<exists>p es k. (p, Dir es) \<in> set (walk_dirs base b) \<and> (k, m) \<in> set es \<and> q = p @ [k])"
  proof
    assume "(q, m) \<in> set (rglob fs base ''*'')"
    then obtain x where x: "x \<in> set (walk_dirs base b)" "(q, m) \<in> set (select [''*''] x)"
      by (auto simp: rglob_def Some parts)
    obtain p n where pn: "x = (p, n)" by (cases x)
    from x(2) obtain es k where "n = Dir es" "(k, m) \<in> set es" "q = p @ [k]"
      unfolding pn select_star by (cases n) auto
    then show "\<exists>p es k. (p, Dir es) \<in> set (walk_dirs base b) \<and> (k, m) \<in> set es \<and> q = p @ [k]"
      using x(1) pn by blast
  next
    assume "\<exists>p es k. (p, Dir es) \<in> set (walk_dirs base b) \<and> (k, m) \<in> set es \<and> q = p @ [k]"
    then obtain p es k where h: "(p, Dir es) \<in> set (walk_dirs base b)" "(k, m) \<in> set es" "q = p @ [k]"
      by blast
    have sel: "(q, m) \<in> set (select [''*''] (p, Dir es))"
      unfolding select_star using h(2,3) by force
    have "rglob fs base ''*'' = concat (map (select [''*'']) (walk_dirs base b))"
      by (simp add: rglob_def Some parts)
    then show "(q, m) \<in> set (rglob fs base ''*'')"
      using h(1) sel by (simp only: set_concat set_map) blast
  qed
  also have "\<dots> \<longleftrightarrow> (\<exists>r es k. Dir es \<in> set (below b r) \<and> (k, m) \<in> set es \<and> q = base @ r @ [k])"
    by (auto simp: walk_dirs_below)
  also have "\<dots> \<longleftrightarrow> (\<exists>r k. m \<in> set (below b (r @ [k])) \<and> q = base @ r @ [k])"
    by (auto simp: below_snoc)
  also have "\<dots> \<longleftrightarrow> (\<exists>r. r \<noteq> [] \<and> q = base @ r \<and> m \<in> set (below b r))"
  proof
    assume "\<exists>r k. m \<in> set (below b (r @ [k])) \<and> q = base @ r @ [k]"
    then obtain r k where "m \<in> set (below b (r @ [k]))" "q = base @ r @ [k]" by blast
    then have "r @ [k] \<noteq> [] \<and> q = base @ (r @ [k]) \<and> m \<in> set (below b (r @ [k]))" by simp
    then show "\<exists>r. r \<noteq> [] \<and> q = base @ r \<and> m \<in> set (below b r)" by blast
  next
    assume "\<exists>r. r \<noteq> [] \<and> q = base @ r \<and> m \<in> set (below b r)"
    then obtain r where r: "r \<noteq> []" "q = base @ r" "m \<in> set (below b r)" by blast
    then obtain r' k where "r = r' @ [k]" by (metis rev_exhaust)
    then show "\<exists>r k. m \<in> set (below b (r @ [k])) \<and> q = base @ r @ [k]" using r by auto
  qed
  finally show ?thesis using Some by simp
qed

lemma check_file_exists_plain:
  "check_file_exists self fs ''proofs/'' \<longleftrightarrow> (\<exists>n. stat fs (repo_path self @ [''proofs'']) = Some n)"
  "check_file_exists self fs ''formal/'' \<longleftrightarrow> (\<exists>n. stat fs (repo_path self @ [''formal'']) = Some n)"
  "check_file_exists self fs ''coq/'' \<longleftrightarrow> (\<exists>n. stat fs (repo_path self @ [''coq'']) = Some n)"
  "check_file_exists self fs ''isabelle/'' \<longleftrightarrow> (\<exists>n. stat fs (repo_path self @ [''isabelle'']) = Some n)"
  "check_file_exists self fs ''tla+/'' \<longleftrightarrow> (\<exists>n. stat fs (repo_path self @ [''tla+'']) = Some n)"
  "check_file_exists self fs ''tests'' \<longleftrightarrow> (\<exists>n. stat fs (repo_path self @ [''tests'']) = Some n)"
  by (simp_all add: check_file_exists_def exists_def joinpath_plain)

lemma scan_tests_below:
  "check_file_exists self fs ''tests'' \<and>
   scan_property_tests (rglob fs (joinpath (repo_path self) ''tests'') ''*'') \<longleftrightarrow>
     (\<exists>t r n content. stat fs (repo_path self @ [''tests'']) = Some t \<and> r \<noteq> [] \<and>
        n \<in> set (below t r) \<and> is_file n \<and>
        read_text_ignore (repo_path self @ ''tests'' # r) n = Inr content \<and>
        (\<exists>lib\<in>set [''hypothesis'', ''quickcheck'', ''proptest'']. sublist lib content))"
proof
  assume a: "check_file_exists self fs ''tests'' \<and>
   scan_property_tests (rglob fs (joinpath (repo_path self) ''tests'') ''*'')"
  then obtain q n content where h: "(q, n) \<in> set (rglob fs (repo_path self @ [''tests'']) ''*'')"
      "is_file n" "read_text_ignore q n = Inr content"
      "\<exists>lib\<in>set [''hypothesis'', ''quickcheck'', ''proptest'']. sublist lib content"
    unfolding scan_property_tests_iff joinpath_plain by blast
  from h(1) obtain t r where r: "stat fs (repo_path self @ [''tests'']) = Some t" "r \<noteq> []"
      "q = (repo_path self @ [''tests'']) @ r" "n \<in> set (below t r)"
    unfolding rglob_star by blast
  have "read_text_ignore (repo_path self @ ''tests'' # r) n = Inr content"
    using h(3) r(3) by simp
  then show "\<exists>t r n content. stat fs (repo_path self @ [''tests'']) = Some t \<and> r \<noteq> [] \<and>
        n \<in> set (below t r) \<and> is_file n \<and>
        read_text_ignore (repo_path self @ ''tests'' # r) n = Inr content \<and>
        (\<exists>lib\<in>set [''hypothesis'', ''quickcheck'', ''proptest'']. sublist lib content)"
    using r(1,2,4) h(2,4) by blast
next
  assume "\<exists>t r n content. stat fs (repo_path self @ [''tests'']) = Some t \<and> r \<noteq> [] \<and>
        n \<in> set (below t r) \<and> is_file n \<and>
        read_text_ignore (repo_path self @ ''tests'' # r) n = Inr content \<and>
        (\<exists>lib\<in>set [''hypothesis'', ''quickcheck'', ''proptest'']. sublist lib content)"
  then obtain t r n content where h: "stat fs (repo_path self @ [''tests'']) = Some t" "r \<noteq> []"
      "n \<in> set (below t r)" "is_file n"
      "read_text_ignore (repo_path self @ ''tests'' # r) n = Inr content"
      "\<exists>lib\<in>set [''hypothesis'', ''quickcheck'', ''proptest'']. sublist lib content"
    by blast
  have m: "((repo_path self @ [''tests'']) @ r, n) \<in> set (rglob fs (repo_path self @ [''tests'']) ''*'')"
    unfolding rglob_star using h(1,2,3) by blast
  have rd: "read_text_ignore ((repo_path self @ [''tests'']) @ r) n = Inr content"
    using h(5) by simp
  have "scan_property_tests (rglob fs (repo_path self @ [''tests'']) ''*'')"
    unfolding scan_property_tests_iff using m h(4) rd h(6) by blast
  moreover have "check_file_exists self fs ''tests''"
    using h(1) by (simp add: check_file_exists_plain)
  ultimately show "check_file_exists self fs ''tests'' \<and>
   scan_property_tests (rglob fs (joinpath (repo_path self) ''tests'') ''*'')"
    by (simp add: joinpath_plain)
qed

text \<open>
  C7, as stated, needs a formal-verification directory. The code asks only whether the
  path exists: in a repository whose single entry is a regular file named \<open>coq\<close>, with
  no directory at any of the five names and no \<open>tests\<close>, the check passes.
\<close>

theorem formal_verification_counterexample:
  "status (hd (gold_checks (report (check_gold_level example_checker coq_file_repo)))) \<and>
   name (hd (gold_checks (report (check_gold_level example_checker coq_file_repo)))) =
     ''Formal verification'' \<and>
   stat coq_file_repo [''repo'', ''coq''] = Some (File (Text ''notes'')) \<and>
   stat coq_file_repo [''repo'', ''proofs''] = None \<and>
   stat coq_file_repo [''repo'', ''formal''] = None \<and>
   stat coq_file_repo [''repo'', ''isabelle''] = None \<and>
   stat coq_file_repo [''repo'', ''tla+''] = None \<and>
   stat coq_file_repo [''repo'', ''tests''] = None"
proof -
  obtain c rest where c: "gold_checks (report (check_gold_level example_checker coq_file_repo)) = c # rest"
      "name c = ''Formal verification''"
      "status c \<longleftrightarrow>
        list_ex (check_file_exists example_checker coq_file_repo)
          [''proofs/'', ''formal/'', ''coq/'', ''isabelle/'', ''tla+/''] \<or>
        (check_file_exists example_checker coq_file_repo ''tests'' \<and>
         scan_property_tests (rglob coq_file_repo (joinpath (repo_path example_checker) ''tests'') ''*''))"
    using gold_first_check [of example_checker coq_file_repo] by blast
  have coq: "stat coq_file_repo [''repo'', ''coq''] = Some (File (Text ''notes''))"
    by (simp add: coq_file_repo_def stat_def)
  have "check_file_exists example_checker coq_file_repo ''coq/''"
    by (simp add: check_file_exists_plain example_paths coq)
  then have "status c" using c(3) by simp
  moreover have "stat coq_file_repo [''repo'', ''proofs''] = None"
    "stat coq_file_repo [''repo'', ''formal''] = None"
    "stat coq_file_repo [''repo'', ''isabelle''] = None"
    "stat coq_file_repo [''repo'', ''tla+''] = None"
    "stat coq_file_repo [''repo'', ''tests''] = None"
    by (simp_all add: coq_file_repo_def stat_def)
  ultimately show ?thesis using c(1,2) coq by simp
qed

text \<open>
  C7, amended. The Gold check named \<open>Formal verification\<close> passes exactly when an entry
  of any kind, a regular file as well as a directory, exists at one of \<open>proofs\<close>,
  \<open>formal\<close>, \<open>coq\<close>, \<open>isabelle\<close>, \<open>tla+\<close> in the repository, or \<open>tests\<close> exists
  there and some regular file below it, at any depth, can be read and its text holds one
  of the substrings \<open>hypothesis\<close>, \<open>quickcheck\<close>, \<open>proptest\<close>.
\<close>

theorem gold_formal_verification_check:
  "\<exists>c rest.
     gold_checks (report (check_gold_level self fs)) = c # rest \<and>
     name c = ''Formal verification'' \<and>
     (status c \<longleftrightarrow>
        (\<exists>d\<in>set [''proofs'', ''formal'', ''coq'', ''isabelle'', ''tla+''].
           \<exists>n. stat fs (repo_path self @ [d]) = Some n) \<or>
        (\<exists>t r n content.
           stat fs (repo_path self @ [''tests'']) = Some t \<and> r \<noteq> [] \<and>
           n \<in> set (below t r) \<and> is_file n \<and>
           read_text_ignore (repo_path self @ ''tests'' # r) n = Inr content \<and>
           (\<exists>lib\<in>set [''hypothesis'', ''quickcheck'', ''proptest'']. sublist lib content)))"
proof -
  obtain c rest where c: "gold_checks (report (check_gold_level self fs)) = c # rest"
      "name c = ''Formal verification''"
      "status c \<longleftrightarrow>
        list_ex (check_file_exists self fs) [''proofs/'', ''formal/'', ''coq/'', ''isabelle/'', ''tla+/''] \<or>
        (check_file_exists self fs ''tests'' \<and>
         scan_property_tests (rglob fs (joinpath (repo_path self) ''tests'') ''*''))"
    using gold_first_check [of self fs] by blast
  have formal: "list_ex (check_file_exists self fs) [''proofs/'', ''formal/'', ''coq/'', ''isabelle/'', ''tla+/''] \<longleftrightarrow>
      (\<exists>d\<in>set [''proofs'', ''formal'', ''coq'', ''isabelle'', ''tla+''].
           \<exists>n. stat fs (repo_path self @ [d]) = Some n)"
    by (simp add: check_file_exists_plain)
  have "status c \<longleftrightarrow>
        (\<exists>d\<in>set [''proofs'', ''formal'', ''coq'', ''isabelle'', ''tla+''].
           \<exists>n. stat fs (repo_path self @ [d]) = Some n) \<or>
        (\<exists>t r n content.
           stat fs (repo_path self @ [''tests'']) = Some t \<and> r \<noteq> [] \<and>
           n \<in> set (below t r) \<and> is_file n \<and>
           read_text_ignore (repo_path self @ ''tests'' # r) n = Inr content \<and>
           (\<exists>lib\<in>set [''hypothesis'', ''quickcheck'', ''proptest'']. sublist lib content))"
    unfolding c(3) formal scan_tests_below ..
  then show ?thesis using c(1,2) by blast
qed

theorem gold_formal_verification_check_witness:
  "stat tests_repo (repo_path example_checker @ [''tests'']) =
     Some (Dir [(''unit'', Dir [(''test_props.py'', File (Text ''from hypothesis import given''))])]) \<and>
   File (Text ''from hypothesis import given'') \<in>
     set (below (Dir [(''unit'', Dir [(''test_props.py'', File (Text ''from hypothesis import given''))])])
            [''unit'', ''test_props.py'']) \<and>
   sublist ''hypothesis'' ''from hypothesis import given'' \<and>
   status (hd (gold_checks (report (check_gold_level example_checker tests_repo)))) \<and>
   name (hd (gold_checks (report (check_gold_level example_checker tests_repo)))) =
     ''Formal verification''"
proof -
  let ?t = "Dir [(''unit'', Dir [(''test_props.py'', File (Text ''from hypothesis import given''))])]"
  let ?n = "File (Text ''from hypothesis import given'')"
  have s: "stat tests_repo (repo_path example_checker @ [''tests'']) = Some ?t"
    by (simp add: example_paths tests_repo_def stat_def)
  have b: "?n \<in> set (below ?t [''unit'', ''test_props.py''])"
    by simp
  have m: "sublist ''hypothesis'' ''from hypothesis import given''"
    by (simp add: sublist_Cons_right)
  have r: "read_text_ignore (repo_path example_checker @ ''tests'' # [''unit'', ''test_props.py'']) ?n
             = Inr ''from hypothesis import given''"
    by simp
  have "\<exists>t r n content.
           stat tests_repo (repo_path example_checker @ [''tests'']) = Some t \<and> r \<noteq> [] \<and>
           n \<in> set (below t r) \<and> is_file n \<and>
           read_text_ignore (repo_path example_checker @ ''tests'' # r) n = Inr content \<and>
           (\<exists>lib\<in>set [''hypothesis'', ''quickcheck'', ''proptest'']. sublist lib content)"
    using s b m r by (intro exI [of _ ?t] exI [of _ "[''unit'', ''test_props.py'']"] exI [of _ ?n]
        exI [of _ "''from hypothesis import given''"]) simp
  then have "status (hd (gold_checks (report (check_gold_level example_checker tests_repo)))) \<and>
   name (hd (gold_checks (report (check_gold_level example_checker tests_repo)))) =
     ''Formal verification''"
    using gold_formal_verification_check [of example_checker tests_repo] by auto
  then show ?thesis using s b m by blast
qed

end
